theory Spec2Isabelle
  imports Complex_Main "HOL-Library.Word"
begin

unbundle bit_operations_syntax

section \<open>Data model (lib/types.ts)\<close>

type_synonym u8 = "8 word"
type_synonym u64 = "64 word"

text \<open>
  The \<open>Board\<close> interface: three \<open>bigint\<close> fields, each produced by
  \<open>readBigUInt64LE\<close> and therefore an unsigned 64-bit value.
\<close>

record Board =
  roundId :: u64
  startSlot :: u64
  endSlot :: u64

text \<open>
  The \<open>Round\<close> interface. \<open>deployed\<close> and \<open>count\<close> are \<open>bigint[]\<close>,
  \<open>slotHash\<close> is a \<open>Uint8Array\<close>, \<open>rentPayer\<close> and \<open>topMiner\<close> are strings
  (the base-58 rendering of a public key). The field \<open>id\<close> is written \<open>id'\<close>.
\<close>

record Round =
  id' :: u64
  deployed :: "u64 list"
  slotHash :: "u8 list"
  count :: "u64 list"
  expiresAt :: u64
  motherlode :: u64
  rentPayer :: string
  topMiner :: string
  topMinerReward :: u64
  totalDeployed :: u64
  totalVaulted :: u64
  totalWinnings :: u64

section \<open>Errors\<close>

text \<open>
  Everything the code can throw, as a value. The first four are the \<open>Error\<close> objects
  built in \<open>lib/accounts.ts\<close>: \<open>'Board account not found'\<close>,
  \<open>'Invalid Board account data'\<close>, \<open>'Round account not found for round <id>'\<close> and
  \<open>'Invalid Round account data'\<close>. \<open>OutOfRange\<close> is the \<open>RangeError\<close> that the
  \<open>Buffer\<close> methods throw for an offset or a value outside their bounds.
  \<open>Rejected m\<close> is a rejection of \<open>connection.getAccountInfo\<close>; \<open>m\<close> is the text that
  the \<open>catch\<close> block of the page extracts from it.
\<close>

datatype error =
    BoardNotFound
  | InvalidBoardData
  | RoundNotFound int
  | InvalidRoundData
  | OutOfRange
  | Rejected string

text \<open>Sequencing of steps that may throw: the first throw ends the computation.\<close>

definition andThen :: "error + 'a \<Rightarrow> ('a \<Rightarrow> error + 'b) \<Rightarrow> error + 'b" where
  "andThen r f = (case r of Inl e \<Rightarrow> Inl e | Inr v \<Rightarrow> f v)"

section \<open>Buffer reads\<close>

text \<open>The unsigned value of a byte sequence, least significant byte first.\<close>

primrec le_nat :: "u8 list \<Rightarrow> nat" where
  "le_nat [] = 0"
| "le_nat (b # bs) = unat b + 256 * le_nat bs"

text \<open>
  \<open>buf.readBigUInt64LE(offset)\<close>: throws a \<open>RangeError\<close> unless the eight bytes
  \<open>offset .. offset + 7\<close> lie inside the buffer, otherwise returns their little-endian
  value.
\<close>

definition u64_at :: "u8 list \<Rightarrow> nat \<Rightarrow> u64" where
  "u64_at data offset = of_nat (le_nat (take 8 (drop offset data)))"

definition readBigUInt64LE :: "u8 list \<Rightarrow> nat \<Rightarrow> error + u64" where
  "readBigUInt64LE data offset =
     (if offset + 8 \<le> length data then Inr (u64_at data offset) else Inl OutOfRange)"

text \<open>
  \<open>buf.subarray(start, end)\<close> for \<open>start \<le> end\<close>: both indices are clamped to the
  buffer's length; it never throws.
\<close>

definition subarray :: "u8 list \<Rightarrow> nat \<Rightarrow> nat \<Rightarrow> u8 list" where
  "subarray data start end = take (end - start) (drop start data)"

section \<open>Decoding the Board account (fetchBoard, lines 64 to 87)\<close>

definition parseBoard :: "u8 list \<Rightarrow> error + Board" where
  "parseBoard data =
     (if length data < 8 then Inl InvalidBoardData
      else
        andThen (readBigUInt64LE data 8) (\<lambda>roundId.
        andThen (readBigUInt64LE data (8 + 8)) (\<lambda>startSlot.
        andThen (readBigUInt64LE data (8 + 8 + 8)) (\<lambda>endSlot.
        Inr \<lparr>roundId = roundId, startSlot = startSlot, endSlot = endSlot\<rparr>))))"

section \<open>Public keys as strings\<close>

text \<open>
  \<open>new PublicKey(bytes).toString()\<close> of the web3 library, for at most 32 bytes: the
  bytes are a big-endian number, padded on the left to 32 bytes and printed in base 58
  (one \<open>1\<close> for each leading zero byte, then the digits of the number, most significant
  first, none when the number is zero). The constructor throws only for a number of more
  than 32 bytes, which a \<open>subarray\<close> of width 32 never is.
\<close>

definition ALPHABET :: string where
  "ALPHABET = ''123456789ABCDEFGHJKLMNPQRSTUVWXYZabcdefghijkmnopqrstuvwxyz''"

definition be_nat :: "u8 list \<Rightarrow> nat" where
  "be_nat bs = foldl (\<lambda>a b. 256 * a + unat b) 0 bs"

fun base58_digits :: "nat \<Rightarrow> nat list" where
  "base58_digits n = (if n = 0 then [] else base58_digits (n div 58) @ [n mod 58])"

declare base58_digits.simps [simp del]

definition bs58_encode :: "u8 list \<Rightarrow> string" where
  "bs58_encode source =
     replicate (length (takeWhile (\<lambda>b. b = 0) source)) (CHR ''1'') @
     map (\<lambda>d. ALPHABET ! d) (base58_digits (be_nat source))"

definition PublicKey_toString :: "u8 list \<Rightarrow> string" where
  "PublicKey_toString bytes = bs58_encode (replicate (32 - length bytes) 0 @ bytes)"

section \<open>Decoding the Round account (fetchRound, lines 109 to 189)\<close>

text \<open>
  The two loops \<open>for (let i = 0; i < 25; i++) { xs.push(data.readBigUInt64LE(offset));
  offset += 8; }\<close>: the first argument counts the iterations still to run, \<open>xs\<close> is the
  array built so far; the result is the array and the offset after the loop.
\<close>

primrec readU64s :: "nat \<Rightarrow> u8 list \<Rightarrow> u64 list \<Rightarrow> nat \<Rightarrow> error + (u64 list \<times> nat)" where
  "readU64s 0 data xs offset = Inr (xs, offset)"
| "readU64s (Suc n) data xs offset =
     andThen (readBigUInt64LE data offset) (\<lambda>x. readU64s n data (xs @ [x]) (offset + 8))"

definition parseRound :: "u8 list \<Rightarrow> error + Round" where
  "parseRound data =
     (if length data < 8 then Inl InvalidRoundData
      else
        andThen (readBigUInt64LE data 8) (\<lambda>id.
        andThen (readU64s 25 data [] (8 + 8)) (\<lambda>(deployed, offset).
        let slotHash = subarray data offset (offset + 32) in
        andThen (readU64s 25 data [] (offset + 32)) (\<lambda>(count, offset).
        andThen (readBigUInt64LE data offset) (\<lambda>expiresAt.
        andThen (readBigUInt64LE data (offset + 8)) (\<lambda>motherlode.
        let rentPayer = PublicKey_toString (subarray data (offset + 16) (offset + 16 + 32));
            topMiner = PublicKey_toString (subarray data (offset + 48) (offset + 48 + 32)) in
        andThen (readBigUInt64LE data (offset + 80)) (\<lambda>topMinerReward.
        andThen (readBigUInt64LE data (offset + 88)) (\<lambda>totalDeployed.
        andThen (readBigUInt64LE data (offset + 96)) (\<lambda>totalVaulted.
        andThen (readBigUInt64LE data (offset + 104)) (\<lambda>totalWinnings.
        Inr \<lparr>id' = id, deployed = deployed, slotHash = slotHash, count = count,
             expiresAt = expiresAt, motherlode = motherlode, rentPayer = rentPayer,
             topMiner = topMiner, topMinerReward = topMinerReward,
             totalDeployed = totalDeployed, totalVaulted = totalVaulted,
             totalWinnings = totalWinnings\<rparr>))))))))))"

section \<open>JavaScript numbers\<close>

text \<open>
  A \<open>number\<close> is an IEEE 754 double: a finite value (a rational; the sign of zero is not
  kept, nothing here depends on it), an infinity or NaN.
\<close>

datatype number = Finite rat | PosInfinity | NegInfinity | NaN

fun bit_length :: "nat \<Rightarrow> nat" where
  "bit_length n = (if n = 0 then 0 else Suc (bit_length (n div 2)))"

declare bit_length.simps [simp del]

text \<open>\<open>ilog2 a\<close> is the exponent of the binade of \<open>a > 0\<close>: \<open>2 ^ e \<le> a < 2 ^ (e + 1)\<close>.\<close>

definition ilog2 :: "rat \<Rightarrow> int" where
  "ilog2 a = (if 1 \<le> a then int (bit_length (nat \<lfloor>a\<rfloor>)) - 1
              else - int (bit_length (nat (\<lceil>1 / a\<rceil> - 1))))"

definition pow2 :: "int \<Rightarrow> rat" where
  "pow2 e = (if 0 \<le> e then 2 ^ nat e else 1 / 2 ^ nat (- e))"

definition round_half_even :: "rat \<Rightarrow> int" where
  "round_half_even x =
     (let q = \<lfloor>x\<rfloor>; r = x - of_int q
      in if r < 1 / 2 then q else if 1 / 2 < r then q + 1 else if even q then q else q + 1)"

text \<open>
  Rounding of an exact value to the nearest double, ties to even: 53 significant bits,
  exponents from \<open>-1022\<close> (below it the spacing stays \<open>2 ^ -1074\<close>), and an infinity when
  the rounded value reaches \<open>2 ^ 1024\<close>.
\<close>

definition round_to_double :: "rat \<Rightarrow> number" where
  "round_to_double x =
     (if x = 0 then Finite 0
      else
        let a = \<bar>x\<bar>;
            e = max (ilog2 a) (- 1022);
            ulp = pow2 (e - 52);
            y = of_int (round_half_even (a / ulp)) * ulp
        in if pow2 1024 \<le> y then (if 0 < x then PosInfinity else NegInfinity)
           else Finite (sgn x * y))"

text \<open>\<open>Number(n)\<close> for a \<open>bigint\<close> \<open>n\<close>.\<close>

definition Number :: "int \<Rightarrow> number" where
  "Number n = round_to_double (of_int n)"

text \<open>The operators \<open>*\<close> and \<open>/\<close> on numbers.\<close>

fun times_number :: "number \<Rightarrow> number \<Rightarrow> number" where
  "times_number (Finite a) (Finite b) = round_to_double (a * b)"
| "times_number NaN y = NaN"
| "times_number x NaN = NaN"
| "times_number (Finite a) y =
     (if a = 0 then NaN else if (0 < a) = (y = PosInfinity) then PosInfinity else NegInfinity)"
| "times_number x (Finite b) =
     (if b = 0 then NaN else if (0 < b) = (x = PosInfinity) then PosInfinity else NegInfinity)"
| "times_number x y = (if x = y then PosInfinity else NegInfinity)"

fun divide_number :: "number \<Rightarrow> number \<Rightarrow> number" where
  "divide_number (Finite a) (Finite b) =
     (if b = 0 then (if a = 0 then NaN else if 0 < a then PosInfinity else NegInfinity)
      else round_to_double (a / b))"
| "divide_number NaN y = NaN"
| "divide_number x NaN = NaN"
| "divide_number (Finite a) y = Finite 0"
| "divide_number x (Finite b) =
     (if (0 \<le> b) = (x = PosInfinity) then PosInfinity else NegInfinity)"
| "divide_number x y = NaN"

fun Math_floor :: "number \<Rightarrow> number" where
  "Math_floor (Finite a) = Finite (of_int \<lfloor>a\<rfloor>)"
| "Math_floor x = x"

fun Math_max :: "number \<Rightarrow> number \<Rightarrow> number" where
  "Math_max NaN y = NaN"
| "Math_max x NaN = NaN"
| "Math_max PosInfinity y = PosInfinity"
| "Math_max x PosInfinity = PosInfinity"
| "Math_max NegInfinity y = y"
| "Math_max x NegInfinity = x"
| "Math_max (Finite a) (Finite b) = Finite (max a b)"

text \<open>
  The conversion \<open>ToInt32\<close> that the bitwise operators apply to their operands: truncate
  towards zero, reduce modulo \<open>2 ^ 32\<close>, read as a signed 32-bit integer; infinities and
  NaN become 0. \<open>x & y\<close> is the bitwise conjunction of the two signed integers.
\<close>

fun ToInt32 :: "number \<Rightarrow> int" where
  "ToInt32 (Finite a) =
     (let n = (if 0 \<le> a then \<lfloor>a\<rfloor> else \<lceil>a\<rceil>); m = n mod 2 ^ 32
      in if 2 ^ 31 \<le> m then m - 2 ^ 32 else m)"
| "ToInt32 x = 0"

definition bitand_number :: "number \<Rightarrow> number \<Rightarrow> number" where
  "bitand_number x y = Finite (of_int (ToInt32 x AND ToInt32 y))"

section \<open>Buffer writes\<close>

definition Buffer_alloc :: "nat \<Rightarrow> u8 list" where
  "Buffer_alloc n = replicate n 0"

text \<open>
  \<open>buf.writeUInt32LE(value, offset)\<close>: throws a \<open>RangeError\<close> when the value is below 0
  or above \<open>2 ^ 32 - 1\<close> (so for both infinities; NaN passes the comparison and is stored
  as zero bytes) or when the four bytes do not fit, otherwise stores the value's four
  bytes, least significant first.
\<close>

definition store4 :: "u8 list \<Rightarrow> nat \<Rightarrow> int \<Rightarrow> u8 list" where
  "store4 buf offset v =
     buf[offset := of_int v,
         offset + 1 := of_int (v div 2 ^ 8),
         offset + 2 := of_int (v div 2 ^ 16),
         offset + 3 := of_int (v div 2 ^ 24)]"

fun writeUInt32LE :: "u8 list \<Rightarrow> number \<Rightarrow> nat \<Rightarrow> error + u8 list" where
  "writeUInt32LE buf (Finite a) offset =
     (if a < 0 \<or> 4294967295 < a then Inl OutOfRange
      else if length buf < offset + 4 then Inl OutOfRange
      else Inr (store4 buf offset \<lfloor>a\<rfloor>))"
| "writeUInt32LE buf NaN offset =
     (if length buf < offset + 4 then Inl OutOfRange else Inr (store4 buf offset 0))"
| "writeUInt32LE buf x offset = Inl OutOfRange"

section \<open>Address derivation (getBoardPDA, getRoundPDA)\<close>

text \<open>\<open>Buffer.from('board')\<close> and \<open>Buffer.from('round')\<close>.\<close>

definition SEEDS_BOARD :: "u8 list" where
  "SEEDS_BOARD = map (\<lambda>c. of_nat (of_char c)) ''board''"

definition SEEDS_ROUND :: "u8 list" where
  "SEEDS_ROUND = map (\<lambda>c. of_nat (of_char c)) ''round''"

text \<open>
  \<open>PublicKey.findProgramAddressSync(seeds, new PublicKey(CONSTANTS.PROGRAM_ID))\<close> is a
  hash of the seeds and the fixed program id, computed by the web3 library. It is the
  parameter \<open>pda\<close> of everything below, a function from the list of seeds to an address
  of any type \<open>'a\<close>.
\<close>

definition getBoardPDA :: "(u8 list list \<Rightarrow> 'a) \<Rightarrow> 'a" where
  "getBoardPDA pda = pda [SEEDS_BOARD]"

text \<open>
  Lines 32 to 37 of \<open>getRoundPDA\<close>: the buffer that becomes the second seed. The
  parameter \<open>roundId\<close> is written \<open>round_id\<close>, the buffer \<open>buf\<close>.
\<close>

definition roundIdBuffer :: "int \<Rightarrow> error + u8 list" where
  "roundIdBuffer round_id =
     (let buf = Buffer_alloc 8;
          roundIdNum = Number round_id
      in andThen (writeUInt32LE buf (bitand_number roundIdNum (Finite 4294967295)) 0)
           (\<lambda>buf.
            writeUInt32LE buf (Math_floor (divide_number roundIdNum (Finite 4294967296))) 4))"

definition getRoundPDA :: "(u8 list list \<Rightarrow> 'a) \<Rightarrow> int \<Rightarrow> error + 'a" where
  "getRoundPDA pda round_id =
     andThen (roundIdBuffer round_id) (\<lambda>buf. Inr (pda [SEEDS_ROUND, buf]))"

section \<open>Fetching (fetchBoard, fetchRound)\<close>

text \<open>
  \<open>connection.getAccountInfo(address)\<close>: the promise is rejected (\<open>Inl\<close>), or resolves to
  \<open>null\<close> (\<open>None\<close>) or to an account, of which only the data is used.
\<close>

type_synonym 'a connection = "'a \<Rightarrow> error + u8 list option"

definition fetchBoard :: "(u8 list list \<Rightarrow> 'a) \<Rightarrow> 'a connection \<Rightarrow> error + Board" where
  "fetchBoard pda connection =
     andThen (connection (getBoardPDA pda)) (\<lambda>accountInfo.
       case accountInfo of
         None \<Rightarrow> Inl BoardNotFound
       | Some data \<Rightarrow> parseBoard data)"

definition fetchRound :: "(u8 list list \<Rightarrow> 'a) \<Rightarrow> 'a connection \<Rightarrow> int \<Rightarrow> error + Round" where
  "fetchRound pda connection round_id =
     andThen (getRoundPDA pda round_id) (\<lambda>roundPDA.
     andThen (connection roundPDA) (\<lambda>accountInfo.
       case accountInfo of
         None \<Rightarrow> Inl (RoundNotFound round_id)
       | Some data \<Rightarrow> parseRound data))"

section \<open>calculateTimeRemaining\<close>

text \<open>
  \<open>CONSTANTS.SECONDS_PER_SLOT\<close>: the literal \<open>0.4\<close>, that is the double nearest to 4/10.
  The parameter \<open>endSlot\<close> is written \<open>end_slot\<close>.
\<close>

definition SECONDS_PER_SLOT :: number where
  "SECONDS_PER_SLOT = round_to_double (4 / 10)"

definition calculateTimeRemaining :: "int \<Rightarrow> int \<Rightarrow> number" where
  "calculateTimeRemaining currentSlot end_slot =
     (let slotsRemaining = Number (end_slot - currentSlot)
      in Math_max (Finite 0) (Math_floor (times_number slotsRemaining SECONDS_PER_SLOT)))"

section \<open>The page component (Home)\<close>

text \<open>
  The four \<open>useState\<close> slots. \<open>round\<close> is written \<open>round'\<close>. The \<open>error\<close> slot holds the
  text taken from the thrown value, represented by the value itself.
\<close>

record state =
  board :: "Board option"
  round' :: "Round option"
  loading :: bool
  error :: "error option"

definition initial :: state where
  "initial = \<lparr>board = None, round' = None, loading = True, error = None\<rparr>"

text \<open>
  \<open>fetchData\<close>, as the list of the states after each of its \<open>set...\<close> calls, in order. The
  two \<open>console.log\<close> calls evaluate \<open>getBoardPDA()\<close>, which does not throw, and
  \<open>getRoundPDA(boardData.roundId)\<close>, which may.
\<close>

definition fetchData_trace :: "(u8 list list \<Rightarrow> 'a) \<Rightarrow> 'a connection \<Rightarrow> state \<Rightarrow> state list" where
  "fetchData_trace pda connection s0 =
     (let s1 = s0\<lparr>loading := True\<rparr>;
          s2 = s1\<lparr>error := None\<rparr>
      in case fetchBoard pda connection of
           Inl err \<Rightarrow>
             (let s3 = s2\<lparr>error := Some err\<rparr>;
                  s4 = s3\<lparr>loading := False\<rparr>
              in [s1, s2, s3, s4])
         | Inr boardData \<Rightarrow>
             (let s3 = s2\<lparr>board := Some boardData\<rparr>
              in case andThen (getRoundPDA pda (uint (roundId boardData)))
                        (\<lambda>_. fetchRound pda connection (uint (roundId boardData))) of
                   Inl err \<Rightarrow>
                     (let s4 = s3\<lparr>error := Some err\<rparr>;
                          s5 = s4\<lparr>loading := False\<rparr>
                      in [s1, s2, s3, s4, s5])
                 | Inr roundData \<Rightarrow>
                     (let s4 = s3\<lparr>round' := Some roundData\<rparr>;
                          s5 = s4\<lparr>loading := False\<rparr>
                      in [s1, s2, s3, s4, s5])))"

definition fetchData :: "(u8 list list \<Rightarrow> 'a) \<Rightarrow> 'a connection \<Rightarrow> state \<Rightarrow> state" where
  "fetchData pda connection s0 = last (fetchData_trace pda connection s0)"

text \<open>
  \<open>useEffect(effect, deps)\<close>: after a render the effect runs when there was no earlier
  render or when the dependencies differ from those of the earlier render. \<open>Home\<close> passes
  the empty list, sets no timer and subscribes to nothing, so the renders are the only
  occasions on which its code runs again. \<open>fetches\<close> counts the calls of \<open>fetchData\<close>.
\<close>

definition effect_due :: "'d list option \<Rightarrow> 'd list \<Rightarrow> bool" where
  "effect_due previous deps = (case previous of None \<Rightarrow> True | Some p \<Rightarrow> p \<noteq> deps)"

record hooks =
  st :: state
  deps :: "unit list option"
  fetches :: nat

definition mount :: hooks where
  "mount = \<lparr>st = initial, deps = None, fetches = 0\<rparr>"

definition Home_render :: "(u8 list list \<Rightarrow> 'a) \<Rightarrow> 'a connection \<Rightarrow> hooks \<Rightarrow> hooks" where
  "Home_render pda connection h =
     (if effect_due (deps h) []
      then \<lparr>st = fetchData pda connection (st h), deps = Some [], fetches = Suc (fetches h)\<rparr>
      else h\<lparr>deps := Some []\<rparr>)"

text \<open>A run of the page: one render after the other, each with the remote store of its time.\<close>

primrec Home_renders :: "(u8 list list \<Rightarrow> 'a) \<Rightarrow> 'a connection list \<Rightarrow> hooks \<Rightarrow> hooks" where
  "Home_renders pda [] h = h"
| "Home_renders pda (connection # later) h = Home_renders pda later (Home_render pda connection h)"

section \<open>Reference encoders\<close>

text \<open>
  The writer's side of the layout, stated for the round-trip laws: \<open>to_le k n\<close> is the
  \<open>k\<close>-byte little-endian representation of \<open>n\<close>. \<open>RoundStruct\<close> has the fields of the
  on-chain struct that \<open>fetchRound\<close> lists in its comments, the two public keys as their
  32 bytes.
\<close>

primrec to_le :: "nat \<Rightarrow> nat \<Rightarrow> u8 list" where
  "to_le 0 n = []"
| "to_le (Suc k) n = of_nat (n mod 256) # to_le k (n div 256)"

definition u64_bytes :: "u64 \<Rightarrow> u8 list" where
  "u64_bytes w = to_le 8 (unat w)"

definition encodeBoard :: "Board \<Rightarrow> u8 list" where
  "encodeBoard b = u64_bytes (roundId b) @ u64_bytes (startSlot b) @ u64_bytes (endSlot b)"

record RoundStruct =
  s_id :: u64
  s_deployed :: "u64 list"
  s_slot_hash :: "u8 list"
  s_count :: "u64 list"
  s_expires_at :: u64
  s_motherlode :: u64
  s_rent_payer :: "u8 list"
  s_top_miner :: "u8 list"
  s_top_miner_reward :: u64
  s_total_deployed :: u64
  s_total_vaulted :: u64
  s_total_winnings :: u64

definition wellformed :: "RoundStruct \<Rightarrow> bool" where
  "wellformed a \<longleftrightarrow>
     length (s_deployed a) = 25 \<and> length (s_slot_hash a) = 32 \<and> length (s_count a) = 25 \<and>
     length (s_rent_payer a) = 32 \<and> length (s_top_miner a) = 32"

definition encodeRound :: "RoundStruct \<Rightarrow> u8 list" where
  "encodeRound a =
     u64_bytes (s_id a) @
     concat (map u64_bytes (s_deployed a)) @
     s_slot_hash a @
     concat (map u64_bytes (s_count a)) @
     u64_bytes (s_expires_at a) @
     u64_bytes (s_motherlode a) @
     s_rent_payer a @
     s_top_miner a @
     u64_bytes (s_top_miner_reward a) @
     u64_bytes (s_total_deployed a) @
     u64_bytes (s_total_vaulted a) @
     u64_bytes (s_total_winnings a)"

text \<open>The record that a decoder of the bytes of \<open>a\<close> is to return.\<close>

definition toRound :: "RoundStruct \<Rightarrow> Round" where
  "toRound a =
     \<lparr>id' = s_id a, deployed = s_deployed a, slotHash = s_slot_hash a, count = s_count a,
      expiresAt = s_expires_at a, motherlode = s_motherlode a,
      rentPayer = PublicKey_toString (s_rent_payer a),
      topMiner = PublicKey_toString (s_top_miner a),
      topMinerReward = s_top_miner_reward a, totalDeployed = s_total_deployed a,
      totalVaulted = s_total_vaulted a, totalWinnings = s_total_winnings a\<rparr>"

section \<open>Concrete scenarios\<close>

text \<open>
  For the concrete runs below an address is represented by the seeds it is derived from,
  a derivation without collisions.
\<close>

definition seeds_address :: "u8 list list \<Rightarrow> u8 list list" where
  "seeds_address seeds = seeds"

definition tag0 :: "u8 list" where
  "tag0 = replicate 8 0"

definition board6 :: Board where
  "board6 = \<lparr>roundId = 6, startSlot = 100, endSlot = 250\<rparr>"

definition board7 :: Board where
  "board7 = \<lparr>roundId = 7, startSlot = 250, endSlot = 400\<rparr>"

definition struct_of_id :: "u64 \<Rightarrow> RoundStruct" where
  "struct_of_id n =
     \<lparr>s_id = n, s_deployed = replicate 25 0, s_slot_hash = replicate 32 0,
      s_count = replicate 25 0, s_expires_at = 0, s_motherlode = 0,
      s_rent_payer = replicate 32 0, s_top_miner = replicate 32 0,
      s_top_miner_reward = 0, s_total_deployed = 0, s_total_vaulted = 0,
      s_total_winnings = 0\<rparr>"

text \<open>A state in which the records of round 6 are published.\<close>

definition published6 :: state where
  "published6 =
     \<lparr>board = Some board6, round' = Some (toRound (struct_of_id 6)), loading = False,
      error = None\<rparr>"

text \<open>
  Remote stores: the parent record of round 6 with its child record; the parent record
  of round 7 with, at the child address of round 7, a record whose id is 8; the parent
  record of round 7 with no child account; the same with a child request that is
  rejected; a store without any account.
\<close>

definition store6 :: "u8 list list connection" where
  "store6 address =
     (if address = [SEEDS_BOARD] then Inr (Some (tag0 @ encodeBoard board6))
      else if address = [SEEDS_ROUND, to_le 8 6] then Inr (Some (tag0 @ encodeRound (struct_of_id 6)))
      else Inr None)"

definition store7_child8 :: "u8 list list connection" where
  "store7_child8 address =
     (if address = [SEEDS_BOARD] then Inr (Some (tag0 @ encodeBoard board7))
      else if address = [SEEDS_ROUND, to_le 8 7] then Inr (Some (tag0 @ encodeRound (struct_of_id 8)))
      else Inr None)"


definition store7_child_rejected :: "u8 list list connection" where
  "store7_child_rejected address =
     (if address = [SEEDS_BOARD] then Inr (Some (tag0 @ encodeBoard board7))
      else Inl (Rejected ''failed to get info about account''))"

definition store_none :: "u8 list list connection" where
  "store_none address = Inr None"

section \<open>Signs of numbers\<close>

definition nonneg_number :: "number \<Rightarrow> bool" where
  "nonneg_number x = (case x of Finite a \<Rightarrow> 0 \<le> a | PosInfinity \<Rightarrow> True | _ \<Rightarrow> False)"

definition nonpos_number :: "number \<Rightarrow> bool" where
  "nonpos_number x = (case x of Finite a \<Rightarrow> a \<le> 0 | NegInfinity \<Rightarrow> True | _ \<Rightarrow> False)"

section \<open>Sequencing\<close>

lemma andThen_Inr [simp]: "andThen (Inr v) f = f v"
  by (simp add: andThen_def)

lemma andThen_Inl [simp]: "andThen (Inl e) f = Inl e"
  by (simp add: andThen_def)

section \<open>What the decoders compute\<close>

lemma readU64s_eq:
  "readU64s n data xs offset =
     (if n = 0 \<or> offset + 8 * n \<le> length data
      then Inr (xs @ map (\<lambda>i. u64_at data (offset + 8 * i)) [0..<n], offset + 8 * n)
      else Inl OutOfRange)"
proof (induction n arbitrary: xs offset)
  case 0
  then show ?case by simp
next
  case (Suc n)
  have shift: "map (\<lambda>i. u64_at data (offset + 8 * i)) [0..<Suc n] =
      u64_at data offset # map (\<lambda>i. u64_at data (offset + 8 + 8 * i)) [0..<n]"
    by (simp add: map_upt_Suc add.assoc del: upt_Suc)
  show ?case
  proof (cases "offset + 8 \<le> length data")
    case True
    then show ?thesis
      unfolding shift by (auto simp: readBigUInt64LE_def Suc.IH)
  next
    case False
    then show ?thesis
      by (simp add: readBigUInt64LE_def)
  qed
qed

text \<open>
  The decoders by the length of the buffer: the fields are the little-endian values and
  the byte blocks at fixed offsets, in the order of the struct.
\<close>

lemma parseBoard_eq:
  "parseBoard data =
     (if length data < 8 then Inl InvalidBoardData
      else if length data < 32 then Inl OutOfRange
      else Inr \<lparr>roundId = u64_at data 8, startSlot = u64_at data 16, endSlot = u64_at data 24\<rparr>)"
  by (simp add: parseBoard_def readBigUInt64LE_def)

lemma parseRound_eq:
  "parseRound data =
     (if length data < 8 then Inl InvalidRoundData
      else if length data < 560 then Inl OutOfRange
      else Inr \<lparr>id' = u64_at data 8,
                deployed = map (\<lambda>i. u64_at data (16 + 8 * i)) [0..<25],
                slotHash = subarray data 216 248,
                count = map (\<lambda>i. u64_at data (248 + 8 * i)) [0..<25],
                expiresAt = u64_at data 448,
                motherlode = u64_at data 456,
                rentPayer = PublicKey_toString (subarray data 464 496),
                topMiner = PublicKey_toString (subarray data 496 528),
                topMinerReward = u64_at data 528,
                totalDeployed = u64_at data 536,
                totalVaulted = u64_at data 544,
                totalWinnings = u64_at data 552\<rparr>)"
  by (simp add: parseRound_def readBigUInt64LE_def readU64s_eq Let_def del: upt_Suc)

section \<open>Little-endian bytes\<close>

lemma length_to_le [simp]: "length (to_le k n) = k"
  by (induction k arbitrary: n) simp_all

lemma length_u64_bytes [simp]: "length (u64_bytes w) = 8"
  by (simp add: u64_bytes_def)

lemma unat_byte_of_nat: "unat (of_nat (n mod 256) :: u8) = n mod 256"
  by (simp add: unat_of_nat)

lemma le_nat_to_le: "le_nat (to_le k n) = n mod 256 ^ k"
proof (induction k arbitrary: n)
  case 0
  then show ?case by simp
next
  case (Suc k)
  have "le_nat (to_le (Suc k) n) = n mod 256 + 256 * (n div 256 mod 256 ^ k)"
    by (simp add: Suc.IH unat_byte_of_nat)
  also have "\<dots> = n mod 256 ^ Suc k"
    by (simp add: mod_mult2_eq)
  finally show ?case .
qed

lemma le_nat_u64_bytes: "of_nat (le_nat (u64_bytes w)) = w"
proof -
  have "unat w < 256 ^ 8"
    using unsigned_less [of w, where 'a = nat] by simp
  then show ?thesis
    by (simp add: u64_bytes_def le_nat_to_le)
qed

lemma u64_at_field:
  "length pre = offset \<Longrightarrow> u64_at (pre @ u64_bytes w @ post) offset = w"
  by (simp add: u64_at_def le_nat_u64_bytes)

lemma subarray_field:
  "length pre = offset \<Longrightarrow> offset + length xs = stop \<Longrightarrow>
     subarray (pre @ xs @ post) offset stop = xs"
  by (auto simp: subarray_def)

lemma length_concat_u64_bytes [simp]: "length (concat (map u64_bytes ws)) = 8 * length ws"
  by (induction ws) simp_all

lemma take_drop_concat_u64_bytes:
  "i < length ws \<Longrightarrow>
     take 8 (drop (8 * i) (concat (map u64_bytes ws) @ post)) = u64_bytes (ws ! i)"
proof (induction ws arbitrary: i)
  case Nil
  then show ?case by simp
next
  case (Cons w ws)
  show ?case
  proof (cases i)
    case 0
    then show ?thesis by simp
  next
    case (Suc j)
    with Cons.prems have "j < length ws" by simp
    from Cons.IH [OF this] show ?thesis
      using Suc by simp
  qed
qed

lemma u64_at_array:
  assumes "length pre = offset" and "length ws = n"
  shows "map (\<lambda>i. u64_at (pre @ concat (map u64_bytes ws) @ post) (offset + 8 * i)) [0..<n] = ws"
proof (rule nth_equalityI)
  show "length (map (\<lambda>i. u64_at (pre @ concat (map u64_bytes ws) @ post) (offset + 8 * i)) [0..<n]) = length ws"
    using assms by simp
next
  fix i
  assume "i < length (map (\<lambda>i. u64_at (pre @ concat (map u64_bytes ws) @ post) (offset + 8 * i)) [0..<n])"
  then have i: "i < length ws"
    using assms by simp
  have "u64_at (pre @ concat (map u64_bytes ws) @ post) (offset + 8 * i) = ws ! i"
    using assms(1) take_drop_concat_u64_bytes [OF i, of post]
    by (simp add: u64_at_def le_nat_u64_bytes)
  then show "map (\<lambda>i. u64_at (pre @ concat (map u64_bytes ws) @ post) (offset + 8 * i)) [0..<n] ! i = ws ! i"
    using i assms(2) by simp
qed

section \<open>Decoding what the encoders wrote\<close>

lemma length_encodeBoard [simp]: "length (encodeBoard b) = 24"
  by (simp add: encodeBoard_def)

lemma length_encodeRound: "wellformed a \<Longrightarrow> length (encodeRound a) = 552"
  by (simp add: encodeRound_def wellformed_def)

lemma parseBoard_encodeBoard:
  assumes "length tag = 8"
  shows "parseBoard (tag @ encodeBoard b @ rest) = Inr b"
proof -
  let ?data = "tag @ encodeBoard b @ rest"
  have 1: "u64_at ?data 8 = roundId b"
    using u64_at_field [of tag 8 "roundId b"] assms by (simp add: encodeBoard_def)
  have 2: "u64_at ?data 16 = startSlot b"
    using u64_at_field [of "tag @ u64_bytes (roundId b)" 16 "startSlot b"] assms
    by (simp add: encodeBoard_def)
  have 3: "u64_at ?data 24 = endSlot b"
    using u64_at_field [of "tag @ u64_bytes (roundId b) @ u64_bytes (startSlot b)" 24 "endSlot b"] assms
    by (simp add: encodeBoard_def)
  show ?thesis
    using assms by (simp add: parseBoard_eq 1 2 3)
qed

lemma parseRound_encodeRound:
  assumes tag: "length tag = 8" and wf: "wellformed a"
  shows "parseRound (tag @ encodeRound a @ rest) = Inr (toRound a)"
proof -
  let ?f1 = "u64_bytes (s_id a)"
  let ?f2 = "concat (map u64_bytes (s_deployed a))"
  let ?f3 = "s_slot_hash a"
  let ?f4 = "concat (map u64_bytes (s_count a))"
  let ?f5 = "u64_bytes (s_expires_at a)"
  let ?f6 = "u64_bytes (s_motherlode a)"
  let ?f7 = "s_rent_payer a"
  let ?f8 = "s_top_miner a"
  let ?f9 = "u64_bytes (s_top_miner_reward a)"
  let ?f10 = "u64_bytes (s_total_deployed a)"
  let ?f11 = "u64_bytes (s_total_vaulted a)"
  let ?f12 = "u64_bytes (s_total_winnings a)"
  let ?data = "tag @ encodeRound a @ rest"
  note len = tag wf [unfolded wellformed_def]
  have data: "?data = tag @ ?f1 @ ?f2 @ ?f3 @ ?f4 @ ?f5 @ ?f6 @ ?f7 @ ?f8 @ ?f9 @ ?f10 @ ?f11 @ ?f12 @ rest"
    by (simp add: encodeRound_def)
  have long: "\<not> length ?data < 8" "\<not> length ?data < 560"
    using len by (simp_all add: length_encodeRound [OF wf])
  have 1: "u64_at ?data 8 = s_id a"
    unfolding data using u64_at_field [of tag 8 "s_id a"] len by simp
  have 2: "map (\<lambda>i. u64_at ?data (16 + 8 * i)) [0..<25] = s_deployed a"
    unfolding data using u64_at_array [of "tag @ ?f1" 16 "s_deployed a" 25] len by simp
  have 3: "subarray ?data 216 248 = s_slot_hash a"
    unfolding data using subarray_field [of "tag @ ?f1 @ ?f2" 216 ?f3 248] len by simp
  have 4: "map (\<lambda>i. u64_at ?data (248 + 8 * i)) [0..<25] = s_count a"
    unfolding data using u64_at_array [of "tag @ ?f1 @ ?f2 @ ?f3" 248 "s_count a" 25] len by simp
  have 5: "u64_at ?data 448 = s_expires_at a"
    unfolding data using u64_at_field [of "tag @ ?f1 @ ?f2 @ ?f3 @ ?f4" 448 "s_expires_at a"] len by simp
  have 6: "u64_at ?data 456 = s_motherlode a"
    unfolding data using u64_at_field [of "tag @ ?f1 @ ?f2 @ ?f3 @ ?f4 @ ?f5" 456 "s_motherlode a"] len by simp
  have 7: "subarray ?data 464 496 = s_rent_payer a"
    unfolding data using subarray_field [of "tag @ ?f1 @ ?f2 @ ?f3 @ ?f4 @ ?f5 @ ?f6" 464 ?f7 496] len by simp
  have 8: "subarray ?data 496 528 = s_top_miner a"
    unfolding data using subarray_field [of "tag @ ?f1 @ ?f2 @ ?f3 @ ?f4 @ ?f5 @ ?f6 @ ?f7" 496 ?f8 528] len by simp
  have 9: "u64_at ?data 528 = s_top_miner_reward a"
    unfolding data using u64_at_field [of "tag @ ?f1 @ ?f2 @ ?f3 @ ?f4 @ ?f5 @ ?f6 @ ?f7 @ ?f8" 528 "s_top_miner_reward a"] len by simp
  have 10: "u64_at ?data 536 = s_total_deployed a"
    unfolding data using u64_at_field [of "tag @ ?f1 @ ?f2 @ ?f3 @ ?f4 @ ?f5 @ ?f6 @ ?f7 @ ?f8 @ ?f9" 536 "s_total_deployed a"] len by simp
  have 11: "u64_at ?data 544 = s_total_vaulted a"
    unfolding data using u64_at_field [of "tag @ ?f1 @ ?f2 @ ?f3 @ ?f4 @ ?f5 @ ?f6 @ ?f7 @ ?f8 @ ?f9 @ ?f10" 544 "s_total_vaulted a"] len by simp
  have 12: "u64_at ?data 552 = s_total_winnings a"
    unfolding data using u64_at_field [of "tag @ ?f1 @ ?f2 @ ?f3 @ ?f4 @ ?f5 @ ?f6 @ ?f7 @ ?f8 @ ?f9 @ ?f10 @ ?f11" 552 "s_total_winnings a"] len by simp
  show ?thesis
    unfolding parseRound_eq [of ?data] if_not_P [OF long(1)] if_not_P [OF long(2)]
      1 2 3 4 5 6 7 8 9 10 11 12 toRound_def ..
qed

lemma wellformed_struct_of_id [simp]: "wellformed (struct_of_id n)"
  by (simp add: wellformed_def struct_of_id_def)

lemma length_tag0 [simp]: "length tag0 = 8"
  by (simp add: tag0_def)

section \<open>The leading tag\<close>

lemma u64_at_skip:
  "length pre \<le> offset \<Longrightarrow> u64_at (pre @ body) offset = u64_at body (offset - length pre)"
  by (simp add: u64_at_def)

lemma subarray_skip:
  "length pre \<le> offset \<Longrightarrow>
     subarray (pre @ body) offset stop = subarray body (offset - length pre) (stop - length pre)"
  by (simp add: subarray_def)

lemma parseBoard_tag:
  "length tag = 8 \<Longrightarrow> length tag' = 8 \<Longrightarrow> parseBoard (tag @ body) = parseBoard (tag' @ body)"
  by (simp add: parseBoard_eq u64_at_skip)

lemma parseRound_tag:
  "length tag = 8 \<Longrightarrow> length tag' = 8 \<Longrightarrow> parseRound (tag @ body) = parseRound (tag' @ body)"
  by (simp add: parseRound_eq u64_at_skip subarray_skip del: upt_Suc)

section \<open>The base-58 rendering is injective\<close>



















lemma PublicKey_toString_zero:
  "PublicKey_toString (replicate 32 0) = ''11111111111111111111111111111111''"
  by code_simp

section \<open>Rounding to a double\<close>

lemma pow2_pos [simp]: "0 < pow2 e"
  by (simp add: pow2_def)

lemma round_half_even_nonneg: "0 \<le> x \<Longrightarrow> 0 \<le> round_half_even x"
  by (simp add: round_half_even_def Let_def)

lemma round_half_even_of_int [simp]: "round_half_even (of_int k) = k"
  by (simp add: round_half_even_def)

lemma rounded_magnitude_nonneg:
  "0 \<le> rat_of_int (round_half_even (\<bar>x\<bar> / pow2 e)) * pow2 e"
proof -
  have "0 \<le> \<bar>x\<bar> / pow2 e"
    by (simp add: less_imp_le)
  then have "0 \<le> round_half_even (\<bar>x\<bar> / pow2 e)"
    by (rule round_half_even_nonneg)
  then show ?thesis
    by (simp add: less_imp_le)
qed

lemma round_to_double_nonneg: "0 \<le> x \<Longrightarrow> nonneg_number (round_to_double x)"
  using rounded_magnitude_nonneg [of x "max (ilog2 \<bar>x\<bar>) (- 1022) - 52"]
  by (simp add: round_to_double_def nonneg_number_def Let_def)

lemma round_to_double_nonpos: "x \<le> 0 \<Longrightarrow> nonpos_number (round_to_double x)"
  using rounded_magnitude_nonneg [of x "max (ilog2 \<bar>x\<bar>) (- 1022) - 52"]
  by (simp add: round_to_double_def nonpos_number_def Let_def)

lemma SECONDS_PER_SLOT_eq: "SECONDS_PER_SLOT = Finite (3602879701896397 / 9007199254740992)"
  by code_simp

lemma times_SECONDS_PER_SLOT_nonneg:
  "nonneg_number x \<Longrightarrow> nonneg_number (times_number x SECONDS_PER_SLOT)"
  unfolding SECONDS_PER_SLOT_eq
  by (cases x) (simp_all add: nonneg_number_def [of PosInfinity] nonneg_number_def [of NegInfinity]
      nonneg_number_def [of NaN] nonneg_number_def [of "Finite _"] round_to_double_nonneg)

lemma times_SECONDS_PER_SLOT_nonpos:
  "nonpos_number x \<Longrightarrow> nonpos_number (times_number x SECONDS_PER_SLOT)"
  unfolding SECONDS_PER_SLOT_eq
  by (cases x) (simp_all add: nonpos_number_def [of PosInfinity] nonpos_number_def [of NegInfinity]
      nonpos_number_def [of NaN] nonpos_number_def [of "Finite _"] round_to_double_nonpos
      mult_nonpos_nonneg)

lemma Math_floor_nonneg: "nonneg_number x \<Longrightarrow> nonneg_number (Math_floor x)"
  by (cases x) (simp_all add: nonneg_number_def)

lemma Math_floor_nonpos: "nonpos_number x \<Longrightarrow> nonpos_number (Math_floor x)"
  by (cases x) (auto simp: nonpos_number_def intro: order_trans [OF of_int_floor_le])

lemma Math_max_0_nonneg: "nonneg_number x \<Longrightarrow> nonneg_number (Math_max (Finite 0) x)"
  by (cases x) (simp_all add: nonneg_number_def)

lemma Math_max_0_nonpos: "nonpos_number x \<Longrightarrow> Math_max (Finite 0) x = Finite 0"
  by (cases x) (simp_all add: nonpos_number_def)

lemma bit_length_le: "n < 2 ^ k \<Longrightarrow> bit_length n \<le> k"
proof (induction k arbitrary: n)
  case 0
  then show ?case by (simp add: bit_length.simps)
next
  case (Suc k)
  show ?case
  proof (cases "n = 0")
    case True
    then show ?thesis by (simp add: bit_length.simps)
  next
    case False
    from Suc.prems have "n div 2 < 2 ^ k" by simp
    then have "bit_length (n div 2) \<le> k" by (rule Suc.IH)
    with False show ?thesis by (subst bit_length.simps) simp
  qed
qed

lemma ilog2_le:
  assumes "0 < a" and "a < 2 ^ k"
  shows "ilog2 a \<le> int k - 1 \<or> ilog2 a \<le> 0"
proof (cases "1 \<le> a")
  case True
  have "rat_of_int \<lfloor>a\<rfloor> \<le> a" by simp
  also have "a < 2 ^ k" by fact
  finally have "\<lfloor>a\<rfloor> < 2 ^ k"
    by (metis of_int_less_iff of_int_numeral of_int_power)
  moreover have "0 \<le> \<lfloor>a\<rfloor>" using True by simp
  ultimately have "nat \<lfloor>a\<rfloor> < 2 ^ k"
    by (simp add: nat_less_iff)
  then have "bit_length (nat \<lfloor>a\<rfloor>) \<le> k" by (rule bit_length_le)
  with True show ?thesis by (simp add: ilog2_def)
next
  case False
  then show ?thesis by (simp add: ilog2_def)
qed

text \<open>A dyadic value with at most 53 significant bits is a double: rounding returns it.\<close>

lemma round_to_double_exact:
  assumes n: "\<bar>n\<bar> < 2 ^ 53" and k: "k \<le> 52"
  shows "round_to_double (of_int n / 2 ^ k) = Finite (of_int n / 2 ^ k)"
proof (cases "n = 0")
  case True
  then show ?thesis by (simp add: round_to_double_def)
next
  case False
  define x :: rat where "x = of_int n / 2 ^ k"
  define a where "a = \<bar>x\<bar>"
  define e where "e = max (ilog2 a) (- 1022)"
  have a: "a = of_int \<bar>n\<bar> / 2 ^ k"
    by (simp add: a_def x_def)
  have a_pos: "0 < a"
    using False by (simp add: a)
  have "rat_of_int \<bar>n\<bar> < 2 ^ 53"
    using n by (metis of_int_less_iff of_int_numeral of_int_power)
  then have "a * 2 ^ k < 2 ^ 53"
    by (simp add: a)
  also have "(2::rat) ^ 53 = 2 ^ (53 - k) * 2 ^ k"
    using k by (simp flip: power_add)
  finally have a_less: "a < 2 ^ (53 - k)"
    by simp
  from ilog2_le [OF a_pos a_less] k have "ilog2 a \<le> 52 - int k"
    by auto
  then have e_le: "e \<le> 52 - int k"
    using k by (simp add: e_def)
  define j where "j = nat (52 - int k - e)"
  have j: "int j = 52 - int k - e"
    using e_le by (simp add: j_def)
  have ulp: "pow2 (e - 52) = 1 / 2 ^ (j + k)"
  proof -
    have "e - 52 \<le> 0" using e_le by simp
    moreover have "nat (- (e - 52)) = j + k" using j by simp
    ultimately show ?thesis
      by (cases "e - 52 = 0") (auto simp: pow2_def)
  qed
  have quot: "a / pow2 (e - 52) = of_int (\<bar>n\<bar> * 2 ^ j)"
    by (simp add: ulp a power_add)
  have y: "of_int (round_half_even (a / pow2 (e - 52))) * pow2 (e - 52) = a"
    unfolding quot round_half_even_of_int by (simp add: ulp a power_add)
  have "a < 2 ^ 53"
    using a_less power_increasing [of "53 - k" 53 "2::rat"] by simp
  also have "(2::rat) ^ 53 \<le> 2 ^ 1024"
    by (rule power_increasing) simp_all
  finally have small: "\<not> pow2 1024 \<le> a"
    by (simp add: pow2_def)
  have "x \<noteq> 0"
    using False by (simp add: x_def)
  then have "round_to_double x = Finite (sgn x * a)"
    using y small by (simp add: round_to_double_def Let_def a_def [symmetric] e_def [symmetric])
  also have "sgn x * a = x"
    by (simp add: a_def abs_if sgn_if)
  finally show ?thesis
    by (simp add: x_def)
qed

lemma Number_exact: "\<bar>n\<bar> < 2 ^ 53 \<Longrightarrow> Number n = Finite (of_int n)"
  using round_to_double_exact [of n 0] by (simp add: Number_def)


lemma ToInt32_of_nonneg_int:
  "0 \<le> n \<Longrightarrow> ToInt32 (Finite (of_int n)) =
     (if 2 ^ 31 \<le> n mod 2 ^ 32 then n mod 2 ^ 32 - 2 ^ 32 else n mod 2 ^ 32)"
  by (simp add: Let_def)

lemma ToInt32_mask: "ToInt32 (Finite 4294967295) = - 1"
proof -
  have "ToInt32 (Finite (of_int 4294967295)) = - 1"
    by (subst ToInt32_of_nonneg_int) simp_all
  then show ?thesis by simp
qed

lemma bitand_mask:
  "0 \<le> n \<Longrightarrow> bitand_number (Finite (of_int n)) (Finite 4294967295) =
     Finite (of_int (if 2 ^ 31 \<le> n mod 2 ^ 32 then n mod 2 ^ 32 - 2 ^ 32 else n mod 2 ^ 32))"
  unfolding bitand_number_def ToInt32_mask ToInt32_of_nonneg_int by simp

lemma high_word:
  assumes "0 \<le> n" and "n < 2 ^ 53"
  shows "Math_floor (divide_number (Finite (of_int n)) (Finite 4294967296)) =
     Finite (of_int (n div 2 ^ 32))"
proof -
  have "round_to_double (of_int n / 2 ^ 32) = Finite (of_int n / 2 ^ 32)"
    using assms by (intro round_to_double_exact) simp_all
  moreover have "\<lfloor>rat_of_int n / 2 ^ 32\<rfloor> = n div 2 ^ 32"
    using floor_divide_of_int_eq [of n "2 ^ 32", where 'a = rat] by simp
  ultimately show ?thesis
    by simp
qed

lemma byte_eq_iff: "(of_int k :: u8) = of_int l \<longleftrightarrow> take_bit 8 k = take_bit 8 l"
  by (simp add: word_of_int_eq_iff)

lemma to_le_8:
  "to_le 8 n = map (\<lambda>i. of_nat (n div 256 ^ i)) [0..<8]"
proof -
  have *: "(of_nat (m mod 256) :: u8) = of_nat m" for m
    by (simp add: word_of_nat_eq_iff take_bit_eq_mod)
  have "to_le k n = map (\<lambda>i. of_nat (n div 256 ^ i)) [0..<k]" for k
  proof (induction k arbitrary: n)
    case 0
    then show ?case by simp
  next
    case (Suc k)
    show ?case
      by (simp add: Suc.IH * map_upt_Suc div_mult2_eq del: upt_Suc)
  qed
  then show ?thesis .
qed

lemma length_store4 [simp]: "length (store4 buf offset v) = length buf"
  by (simp add: store4_def)

lemma writeUInt32LE_in_range:
  assumes "0 \<le> v" and "v < 2 ^ 32" and "offset + 4 \<le> length buf"
  shows "writeUInt32LE buf (Finite (of_int v)) offset = Inr (store4 buf offset v)"
proof -
  have "rat_of_int v \<le> rat_of_int 4294967295"
    using assms(2) by (subst of_int_le_iff) simp
  then have "\<not> 4294967295 < rat_of_int v"
    by simp
  moreover have "\<not> rat_of_int v < 0"
    using assms(1) by simp
  ultimately show ?thesis
    using assms(3) by simp
qed

lemma writeUInt32LE_negative:
  "v < 0 \<Longrightarrow> writeUInt32LE buf (Finite (of_int v)) offset = Inl OutOfRange"
  by simp

lemma store4_bytes:
  assumes "0 \<le> n"
  shows "store4 (store4 (replicate 8 0) 0 (n mod 2 ^ 32)) 4 (n div 2 ^ 32) = to_le 8 (nat n)"
proof -
  have byte: "(of_int k :: u8) = of_nat (nat n div 256 ^ i)"
    if "take_bit 8 k = take_bit 8 (drop_bit (8 * i) n)" for k i
  proof -
    have "int (nat n div 256 ^ i) = drop_bit (8 * i) n"
      using assms by (simp add: drop_bit_eq_div zdiv_int power_mult)
    then have "(of_nat (nat n div 256 ^ i) :: u8) = of_int (drop_bit (8 * i) n)"
      by (metis of_int_of_nat_eq)
    with that show ?thesis
      by (simp add: word_of_int_eq_iff)
  qed
  have lo: "take_bit 8 (n mod 2 ^ 32 div 2 ^ j) = take_bit 8 (drop_bit j n)" if "j \<le> 24" for j
  proof -
    have "take_bit 8 (drop_bit j (take_bit 32 n)) = take_bit 8 (drop_bit j n)"
      by (rule bit_eqI) (use that in \<open>auto simp: bit_simps\<close>)
    then show ?thesis
      unfolding take_bit_eq_mod drop_bit_eq_div .
  qed
  have hi: "take_bit 8 (n div 2 ^ 32 div 2 ^ j) = take_bit 8 (drop_bit (32 + j) n)" for j
    by (simp add: drop_bit_eq_div power_add zdiv_zmult2_eq)
  have 0: "(of_int (n mod 2 ^ 32) :: u8) = of_nat (nat n div 256 ^ 0)"
    using lo [of 0] by (intro byte) simp
  have 1: "(of_int (n mod 2 ^ 32 div 2 ^ 8) :: u8) = of_nat (nat n div 256 ^ 1)"
    using lo [of 8] by (intro byte) simp
  have 2: "(of_int (n mod 2 ^ 32 div 2 ^ 16) :: u8) = of_nat (nat n div 256 ^ 2)"
    using lo [of 16] by (intro byte) simp
  have 3: "(of_int (n mod 2 ^ 32 div 2 ^ 24) :: u8) = of_nat (nat n div 256 ^ 3)"
    using lo [of 24] by (intro byte) simp
  have 4: "(of_int (n div 2 ^ 32) :: u8) = of_nat (nat n div 256 ^ 4)"
    using hi [of 0] by (intro byte) simp
  have 5: "(of_int (n div 2 ^ 32 div 2 ^ 8) :: u8) = of_nat (nat n div 256 ^ 5)"
    using hi [of 8] by (intro byte) simp
  have 6: "(of_int (n div 2 ^ 32 div 2 ^ 16) :: u8) = of_nat (nat n div 256 ^ 6)"
    using hi [of 16] by (intro byte) simp
  have 7: "(of_int (n div 2 ^ 32 div 2 ^ 24) :: u8) = of_nat (nat n div 256 ^ 7)"
    using hi [of 24] by (intro byte) simp
  have "store4 (store4 (replicate 8 0) 0 (n mod 2 ^ 32)) 4 (n div 2 ^ 32) =
      [of_int (n mod 2 ^ 32), of_int (n mod 2 ^ 32 div 2 ^ 8), of_int (n mod 2 ^ 32 div 2 ^ 16),
       of_int (n mod 2 ^ 32 div 2 ^ 24), of_int (n div 2 ^ 32), of_int (n div 2 ^ 32 div 2 ^ 8),
       of_int (n div 2 ^ 32 div 2 ^ 16), of_int (n div 2 ^ 32 div 2 ^ 24)]"
    by (simp add: store4_def numeral_eq_Suc)
  also have "\<dots> = map (\<lambda>i. of_nat (nat n div 256 ^ i)) [0..<8]"
    unfolding 0 1 2 3 4 5 6 7 by (simp add: upt_rec)
  finally show ?thesis
    by (simp only: to_le_8)
qed

lemma roundIdBuffer_small:
  assumes "0 \<le> n" and "n < 2 ^ 53"
  shows "roundIdBuffer n =
     (if n mod 2 ^ 32 < 2 ^ 31 then Inr (to_le 8 (nat n)) else Inl OutOfRange)"
proof -
  have num: "Number n = Finite (of_int n)"
    using assms by (intro Number_exact) simp
  have lo_range: "0 \<le> n mod 2 ^ 32" "n mod 2 ^ 32 < 2 ^ 32"
    by simp_all
  have hi_range: "0 \<le> n div 2 ^ 32" "n div 2 ^ 32 < 2 ^ 32"
    using assms by (simp_all add: div_less_iff_less_mult pos_imp_zdiv_nonneg_iff)
  show ?thesis
  proof (cases "n mod 2 ^ 32 < 2 ^ 31")
    case False
    with bitand_mask [OF assms(1)]
    have "bitand_number (Finite (of_int n)) (Finite 4294967295) =
        Finite (of_int (n mod 2 ^ 32 - 2 ^ 32))"
      by simp
    moreover have "n mod 2 ^ 32 - 2 ^ 32 < 0"
      using lo_range by simp
    ultimately show ?thesis
      using False
      by (simp only: roundIdBuffer_def Let_def num writeUInt32LE_negative andThen_Inl if_False)
  next
    case True
    with bitand_mask [OF assms(1)]
    have "bitand_number (Finite (of_int n)) (Finite 4294967295) =
        Finite (of_int (n mod 2 ^ 32))"
      by simp
    moreover have "writeUInt32LE (Buffer_alloc 8) (Finite (of_int (n mod 2 ^ 32))) 0 =
        Inr (store4 (replicate 8 0) 0 (n mod 2 ^ 32))"
      unfolding Buffer_alloc_def using lo_range by (intro writeUInt32LE_in_range) simp_all
    moreover have "writeUInt32LE (store4 (replicate 8 0) 0 (n mod 2 ^ 32))
        (Finite (of_int (n div 2 ^ 32))) 4 =
        Inr (store4 (store4 (replicate 8 0) 0 (n mod 2 ^ 32)) 4 (n div 2 ^ 32))"
      using hi_range by (intro writeUInt32LE_in_range) simp_all
    ultimately show ?thesis
      using True
      by (simp only: roundIdBuffer_def Let_def num high_word [OF assms] andThen_Inr
          store4_bytes [OF assms(1)] if_True)
  qed
qed

section \<open>One run of fetchData\<close>

lemma getRoundPDA_then_fetchRound:
  "andThen (getRoundPDA pda n) (\<lambda>_. fetchRound pda connection n) = fetchRound pda connection n"
  by (cases "getRoundPDA pda n") (simp_all add: fetchRound_def)

lemma fetchData_trace_eq:
  "fetchData_trace pda connection s =
     (case fetchBoard pda connection of
        Inl err \<Rightarrow>
          [s\<lparr>loading := True\<rparr>, s\<lparr>loading := True, error := None\<rparr>,
           s\<lparr>loading := True, error := Some err\<rparr>,
           s\<lparr>loading := False, error := Some err\<rparr>]
      | Inr b \<Rightarrow>
          (case fetchRound pda connection (uint (roundId b)) of
             Inl err \<Rightarrow>
               [s\<lparr>loading := True\<rparr>, s\<lparr>loading := True, error := None\<rparr>,
                s\<lparr>loading := True, error := None, board := Some b\<rparr>,
                s\<lparr>loading := True, error := Some err, board := Some b\<rparr>,
                s\<lparr>loading := False, error := Some err, board := Some b\<rparr>]
           | Inr r \<Rightarrow>
               [s\<lparr>loading := True\<rparr>, s\<lparr>loading := True, error := None\<rparr>,
                s\<lparr>loading := True, error := None, board := Some b\<rparr>,
                s\<lparr>loading := True, error := None, board := Some b, round' := Some r\<rparr>,
                s\<lparr>loading := False, error := None, board := Some b, round' := Some r\<rparr>]))"
  unfolding fetchData_trace_def Let_def getRoundPDA_then_fetchRound
  by (simp split: sum.split)

lemma fetchData_parent_failed:
  "fetchBoard pda connection = Inl e \<Longrightarrow>
     fetchData pda connection s = s\<lparr>loading := False, error := Some e\<rparr>"
  by (simp add: fetchData_def fetchData_trace_eq)

lemma fetchData_child_failed:
  "fetchBoard pda connection = Inr b \<Longrightarrow> fetchRound pda connection (uint (roundId b)) = Inl e \<Longrightarrow>
     fetchData pda connection s = s\<lparr>board := Some b, loading := False, error := Some e\<rparr>"
  by (simp add: fetchData_def fetchData_trace_eq)

lemma fetchData_succeeded:
  "fetchBoard pda connection = Inr b \<Longrightarrow> fetchRound pda connection (uint (roundId b)) = Inr r \<Longrightarrow>
     fetchData pda connection s = s\<lparr>board := Some b, round' := Some r, loading := False, error := None\<rparr>"
  by (simp add: fetchData_def fetchData_trace_eq)

lemma getRoundPDA_exact:
  "0 \<le> n \<Longrightarrow> n < 2 ^ 53 \<Longrightarrow> n mod 2 ^ 32 < 2 ^ 31 \<Longrightarrow>
     getRoundPDA pda n = Inr (pda [SEEDS_ROUND, to_le 8 (nat n)])"
  using roundIdBuffer_small [of n] by (simp add: getRoundPDA_def)

lemma fetchBoard_store_none: "fetchBoard seeds_address store_none = Inl BoardNotFound"
  by (simp add: fetchBoard_def store_none_def)

lemma fetchBoard_store7_child8: "fetchBoard seeds_address store7_child8 = Inr board7"
  using parseBoard_encodeBoard [of tag0 board7 "[]"]
  by (simp add: fetchBoard_def getBoardPDA_def seeds_address_def store7_child8_def)

lemma fetchRound_store7_child8:
  "fetchRound seeds_address store7_child8 7 = Inr (toRound (struct_of_id 8))"
  using parseRound_encodeRound [of tag0 "struct_of_id 8" "[]"] getRoundPDA_exact [of 7 seeds_address]
  by (simp add: fetchRound_def seeds_address_def store7_child8_def)



lemma fetchBoard_store7_child_rejected: "fetchBoard seeds_address store7_child_rejected = Inr board7"
  using parseBoard_encodeBoard [of tag0 board7 "[]"]
  by (simp add: fetchBoard_def getBoardPDA_def seeds_address_def store7_child_rejected_def)

lemma fetchRound_store7_child_rejected:
  "fetchRound seeds_address store7_child_rejected 7 =
     Inl (Rejected ''failed to get info about account'')"
  using getRoundPDA_exact [of 7 seeds_address]
  by (simp add: fetchRound_def seeds_address_def store7_child_rejected_def)

lemma fetchBoard_store6: "fetchBoard seeds_address store6 = Inr board6"
  using parseBoard_encodeBoard [of tag0 board6 "[]"]
  by (simp add: fetchBoard_def getBoardPDA_def seeds_address_def store6_def)

lemma fetchRound_store6:
  "fetchRound seeds_address store6 6 = Inr (toRound (struct_of_id 6))"
  using parseRound_encodeRound [of tag0 "struct_of_id 6" "[]"] getRoundPDA_exact [of 6 seeds_address]
  by (simp add: fetchRound_def seeds_address_def store6_def)

lemma roundId_board7 [simp]: "uint (roundId board7) = 7"
  by (simp add: board7_def)

lemma roundId_board6 [simp]: "uint (roundId board6) = 6"
  by (simp add: board6_def)

section \<open>Renders of the page\<close>

lemma Home_render_mount:
  "Home_render pda connection mount =
     \<lparr>st = fetchData pda connection initial, deps = Some [], fetches = 1\<rparr>"
  by (simp add: Home_render_def mount_def effect_due_def)

lemma Home_render_again:
  "deps h = Some [] \<Longrightarrow> Home_render pda connection h = h"
  by (simp add: Home_render_def effect_due_def)

lemma Home_renders_again:
  "deps h = Some [] \<Longrightarrow> Home_renders pda later h = h"
  by (induction later) (simp_all add: Home_render_again)

lemma Home_renders_mount:
  "Home_renders pda (connection # later) mount =
     \<lparr>st = fetchData pda connection initial, deps = Some [], fetches = 1\<rparr>"
  by (simp add: Home_render_mount Home_renders_again)

section \<open>The claims\<close>




text \<open>
  C2. \<open>getRoundPDA\<close> is to serialize every unsigned 64-bit round id as its 8
  little-endian bytes. For the round id \<open>2 ^ 31 = 2147483648\<close> it does not: the low word
  \<open>roundIdNum & 0xffffffff\<close> is the negative number \<open>-2147483648\<close>, \<open>writeUInt32LE\<close> throws,
  and no address is derived.
\<close>

theorem getRoundPDA_bit31:
  "roundIdBuffer 2147483648 = Inl OutOfRange \<and>
   getRoundPDA seeds_address 2147483648 = Inl OutOfRange \<and>
   to_le 8 2147483648 = [0, 0, 0, 128, 0, 0, 0, 0]"
  using roundIdBuffer_small [of 2147483648] by (simp add: getRoundPDA_def to_le_8 upt_rec)




text \<open>
  C4 (as amended). When the parent step fails, the parent and the child slot are left as
  they were. When the child step fails, the child slot is left as it was and the parent
  slot holds the new parent record. In both cases the error slot, which is separate
  from the two records, is set to the error, and \<open>loading\<close> is cleared.
\<close>

theorem fetchData_failure:
  "(fetchBoard pda connection = Inl e \<longrightarrow>
      fetchData pda connection s = s\<lparr>loading := False, error := Some e\<rparr>) \<and>
   (fetchBoard pda connection = Inr b \<and> fetchRound pda connection (uint (roundId b)) = Inl e \<longrightarrow>
      fetchData pda connection s = s\<lparr>board := Some b, loading := False, error := Some e\<rparr>)"
  by (simp add: fetchData_parent_failed fetchData_child_failed)

text \<open>
  Instances of C4: a store without a parent account, and a store whose child request
  is rejected, both after the records of round 6 were published.
\<close>

theorem fetchData_failure_witness:
  "fetchBoard seeds_address store_none = Inl BoardNotFound \<and>
   fetchData seeds_address store_none published6 =
     published6\<lparr>loading := False, error := Some BoardNotFound\<rparr> \<and>
   fetchBoard seeds_address store7_child_rejected = Inr board7 \<and>
   fetchRound seeds_address store7_child_rejected (uint (roundId board7)) =
     Inl (Rejected ''failed to get info about account'') \<and>
   fetchData seeds_address store7_child_rejected published6 =
     published6\<lparr>board := Some board7, loading := False,
       error := Some (Rejected ''failed to get info about account'')\<rparr>"
  using fetchData_failure [of seeds_address store_none BoardNotFound published6]
    fetchData_failure [of seeds_address store7_child_rejected
      "Rejected ''failed to get info about account''" published6 board7]
    fetchBoard_store_none fetchBoard_store7_child_rejected fetchRound_store7_child_rejected
  by simp

text \<open>
  C4 as stated fails: after a rejected child request the published parent record is no
  longer the one published before the run.
\<close>

theorem failure_changes_parent_counterexample:
  "fetchRound seeds_address store7_child_rejected 7 =
     Inl (Rejected ''failed to get info about account'') \<and>
   board published6 = Some board6 \<and>
   board (fetchData seeds_address store7_child_rejected published6) = Some board7 \<and>
   roundId board6 \<noteq> roundId board7"
  using fetchData_child_failed [OF fetchBoard_store7_child_rejected, of _ published6]
    fetchRound_store7_child_rejected
  by (simp add: published6_def board6_def board7_def)

text \<open>
  C5 (as amended). \<open>fetchData\<close> does not compare the id of the child record with the
  round id of the parent record: whenever the parent account decodes and the account at
  the child address derived from its round id decodes, both records are published and
  the error is cleared, whatever the id of the child record.
\<close>

theorem fetchData_no_cross_check:
  "connection (getBoardPDA pda) = Inr (Some parent_data) \<Longrightarrow>
   parseBoard parent_data = Inr b \<Longrightarrow>
   getRoundPDA pda (uint (roundId b)) = Inr address \<Longrightarrow>
   connection address = Inr (Some child_data) \<Longrightarrow>
   parseRound child_data = Inr r \<Longrightarrow>
     fetchData pda connection s =
       s\<lparr>board := Some b, round' := Some r, loading := False, error := None\<rparr>"
  by (rule fetchData_succeeded) (simp_all add: fetchBoard_def fetchRound_def)

text \<open>An instance of C5: the parent record of round 7 and a child record with id 8.\<close>

theorem fetchData_no_cross_check_witness:
  "store7_child8 (getBoardPDA seeds_address) = Inr (Some (tag0 @ encodeBoard board7)) \<and>
   parseBoard (tag0 @ encodeBoard board7) = Inr board7 \<and>
   getRoundPDA seeds_address (uint (roundId board7)) = Inr [SEEDS_ROUND, to_le 8 7] \<and>
   store7_child8 [SEEDS_ROUND, to_le 8 7] = Inr (Some (tag0 @ encodeRound (struct_of_id 8))) \<and>
   parseRound (tag0 @ encodeRound (struct_of_id 8)) = Inr (toRound (struct_of_id 8)) \<and>
   fetchData seeds_address store7_child8 initial =
     initial\<lparr>board := Some board7, round' := Some (toRound (struct_of_id 8)), loading := False,
       error := None\<rparr>"
proof -
  have 1: "store7_child8 (getBoardPDA seeds_address) = Inr (Some (tag0 @ encodeBoard board7))"
    by (simp add: store7_child8_def getBoardPDA_def seeds_address_def)
  have 2: "parseBoard (tag0 @ encodeBoard board7) = Inr board7"
    using parseBoard_encodeBoard [of tag0 board7 "[]"] by simp
  have 3: "getRoundPDA seeds_address (uint (roundId board7)) = Inr [SEEDS_ROUND, to_le 8 7]"
    using getRoundPDA_exact [of 7 seeds_address] by (simp add: seeds_address_def)
  have 4: "store7_child8 [SEEDS_ROUND, to_le 8 7] = Inr (Some (tag0 @ encodeRound (struct_of_id 8)))"
    by (simp add: store7_child8_def)
  have 5: "parseRound (tag0 @ encodeRound (struct_of_id 8)) = Inr (toRound (struct_of_id 8))"
    using parseRound_encodeRound [of tag0 "struct_of_id 8" "[]"] by simp
  from fetchData_no_cross_check [OF 1 2 3 4 5, of initial] 1 2 3 4 5
  show ?thesis by blast
qed

text \<open>
  C5 as stated fails: with a parent record of round 7 and, at its child address, a
  record with id 8, the run ends without an error and publishes both records in place
  of those of round 6.
\<close>

theorem mismatched_child_published_counterexample:
  "fetchBoard seeds_address store7_child8 = Inr board7 \<and> roundId board7 = 7 \<and>
   fetchRound seeds_address store7_child8 7 = Inr (toRound (struct_of_id 8)) \<and>
   id' (toRound (struct_of_id 8)) = 8 \<and>
   fetchData seeds_address store7_child8 published6 =
     \<lparr>board = Some board7, round' = Some (toRound (struct_of_id 8)), loading = False,
      error = None\<rparr>"
  using fetchData_succeeded [OF fetchBoard_store7_child8, of "toRound (struct_of_id 8)" published6]
    fetchBoard_store7_child8 fetchRound_store7_child8
  by (simp add: published6_def board7_def toRound_def struct_of_id_def)

text \<open>
  C6 (as amended). The page calls \<open>fetchData\<close> once, after its first render: the effect
  has an empty dependency list and the component sets no timer. However many renders
  follow and whatever the remote store holds by then, the state is the one that the
  first run of \<open>fetchData\<close> left.
\<close>

theorem Home_fetches_once:
  "fetches (Home_renders pda (connection # later) mount) = 1 \<and>
   st (Home_renders pda (connection # later) mount) = fetchData pda connection initial"
  unfolding Home_renders_mount by simp

text \<open>
  C6 as stated fails: over three renders, with the remote store moving from round 6 to
  round 7 after the first, there is one run of \<open>fetchData\<close> and the page still holds the
  parent record of round 6.
\<close>

theorem no_refetch_counterexample:
  "fetches (Home_renders seeds_address [store6, store7_child8, store7_child8] mount) = 1 \<and>
   board (st (Home_renders seeds_address [store6, store7_child8, store7_child8] mount)) = Some board6 \<and>
   fetchBoard seeds_address store7_child8 = Inr board7 \<and> board7 \<noteq> board6"
  unfolding Home_renders_mount
  using fetchData_succeeded [OF fetchBoard_store6, of "toRound (struct_of_id 6)" initial]
    fetchRound_store6 fetchBoard_store7_child8
  by (simp add: board6_def board7_def)

text \<open>
  C7 (as amended). Decoding fails exactly for the buffers shorter than 32 bytes (Board)
  or 560 bytes (Round): with the \<open>Invalid ... account data\<close> error when the buffer is
  shorter than the tag, with the range error of the first read that does not fit
  otherwise. No other buffer fails and no short buffer yields a record.
\<close>

theorem decode_failure_by_length:
  "(parseBoard data = Inl InvalidBoardData \<longleftrightarrow> length data < 8) \<and>
   (parseBoard data = Inl OutOfRange \<longleftrightarrow> 8 \<le> length data \<and> length data < 32) \<and>
   (isl (parseBoard data) \<longleftrightarrow> length data < 32) \<and>
   (parseRound data = Inl InvalidRoundData \<longleftrightarrow> length data < 8) \<and>
   (parseRound data = Inl OutOfRange \<longleftrightarrow> 8 \<le> length data \<and> length data < 560) \<and>
   (isl (parseRound data) \<longleftrightarrow> length data < 560)"
  by (simp add: parseBoard_eq parseRound_eq del: upt_Suc)

text \<open>
  C7 as stated fails: a Round buffer of 560 bytes is shorter than 616 bytes and decodes;
  and two Board buffers that are both too short, of 3 and of 10 bytes, fail with
  different errors.
\<close>

theorem child_min_length_counterexample:
  "length (replicate 560 (0::u8)) < 616 \<and> \<not> isl (parseRound (replicate 560 0)) \<and>
   length (replicate 3 (0::u8)) < 32 \<and> length (replicate 10 (0::u8)) < 32 \<and>
   parseBoard (replicate 3 0) \<noteq> parseBoard (replicate 10 0)"
  by (simp add: parseBoard_eq parseRound_eq del: upt_Suc)




text \<open>
  C9. Two buffers that differ only in their first 8 bytes decode to the same result,
  for both kinds of record: the tag is skipped and never looked at. When the bytes
  after the tag are long enough for the record (24 bytes for the Board, 552 bytes for
  the Round), both buffers are accepted, whatever their tags, and yield the same record.
\<close>

theorem decode_ignores_tag:
  "length tag = 8 \<Longrightarrow> length tag' = 8 \<Longrightarrow>
     parseBoard (tag @ body) = parseBoard (tag' @ body) \<and>
     parseRound (tag @ body) = parseRound (tag' @ body) \<and>
     (24 \<le> length body \<longrightarrow>
        (\<exists>b. parseBoard (tag @ body) = Inr b \<and> parseBoard (tag' @ body) = Inr b)) \<and>
     (552 \<le> length body \<longrightarrow>
        (\<exists>r. parseRound (tag @ body) = Inr r \<and> parseRound (tag' @ body) = Inr r))"
proof (intro conjI impI)
  assume tag: "length tag = 8" "length tag' = 8"
  show board: "parseBoard (tag @ body) = parseBoard (tag' @ body)"
    using tag by (rule parseBoard_tag)
  show round: "parseRound (tag @ body) = parseRound (tag' @ body)"
    using tag by (rule parseRound_tag)
  {
    assume "24 \<le> length body"
    with tag have "\<not> length (tag @ body) < 8" "\<not> length (tag @ body) < 32"
      by simp_all
    then have "\<exists>b. parseBoard (tag @ body) = Inr b"
      by (simp only: parseBoard_eq [of "tag @ body"] if_False) blast
    with board show "\<exists>b. parseBoard (tag @ body) = Inr b \<and> parseBoard (tag' @ body) = Inr b"
      by auto
  }
  {
    assume "552 \<le> length body"
    with tag have "\<not> length (tag @ body) < 8" "\<not> length (tag @ body) < 560"
      by simp_all
    then have "\<exists>r. parseRound (tag @ body) = Inr r"
      by (simp only: parseRound_eq [of "tag @ body"] if_False) blast
    with round show "\<exists>r. parseRound (tag @ body) = Inr r \<and> parseRound (tag' @ body) = Inr r"
      by auto
  }
qed

text \<open>
  An instance of C9: the encoded Board of round 7 and an encoded Round record, each
  after a tag of zero bytes and after a tag of bytes 255.
\<close>

theorem decode_ignores_tag_witness:
  "length (replicate 8 (0::u8)) = 8 \<and> length (replicate 8 (255::u8)) = 8 \<and>
   24 \<le> length (encodeBoard board7) \<and>
   parseBoard (replicate 8 0 @ encodeBoard board7) = Inr board7 \<and>
   parseBoard (replicate 8 255 @ encodeBoard board7) = Inr board7 \<and>
   552 \<le> length (encodeRound (struct_of_id 8)) \<and>
   parseRound (replicate 8 0 @ encodeRound (struct_of_id 8)) = Inr (toRound (struct_of_id 8)) \<and>
   parseRound (replicate 8 255 @ encodeRound (struct_of_id 8)) = Inr (toRound (struct_of_id 8))"
proof -
  have 0: "length (replicate 8 (0::u8)) = 8" and 1: "length (replicate 8 (255::u8)) = 8"
    by simp_all
  have 2: "24 \<le> length (encodeBoard board7)"
    by simp
  have 3: "552 \<le> length (encodeRound (struct_of_id 8))"
    by (simp add: length_encodeRound)
  have 4: "parseBoard (replicate 8 0 @ encodeBoard board7) = Inr board7"
    using parseBoard_encodeBoard [OF 0, of board7 "[]"] by (simp only: append_Nil2)
  have 5: "parseRound (replicate 8 0 @ encodeRound (struct_of_id 8)) = Inr (toRound (struct_of_id 8))"
    using parseRound_encodeRound [OF 0 wellformed_struct_of_id, of 8 "[]"] by (simp only: append_Nil2)
  from decode_ignores_tag [OF 0 1, of "encodeBoard board7"] 4
  have 6: "parseBoard (replicate 8 255 @ encodeBoard board7) = Inr board7"
    by metis
  from decode_ignores_tag [OF 0 1, of "encodeRound (struct_of_id 8)"] 5
  have 7: "parseRound (replicate 8 255 @ encodeRound (struct_of_id 8)) = Inr (toRound (struct_of_id 8))"
    by metis
  from 0 1 2 3 4 5 6 7 show ?thesis by blast
qed

text \<open>
  C10. \<open>calculateTimeRemaining\<close> returns a number that is not negative (a finite value
  from 0 upwards, or positive infinity for an astronomically large difference), and it
  returns exactly 0 whenever the current slot is at or past the end slot.
\<close>

theorem calculateTimeRemaining_clamped:
  "nonneg_number (calculateTimeRemaining currentSlot end_slot) \<and>
   (end_slot \<le> currentSlot \<longrightarrow> calculateTimeRemaining currentSlot end_slot = Finite 0)"
proof
  show "nonneg_number (calculateTimeRemaining currentSlot end_slot)"
  proof (cases "end_slot \<le> currentSlot")
    case True
    then have "nonpos_number (Number (end_slot - currentSlot))"
      by (simp add: Number_def round_to_double_nonpos)
    then show ?thesis
      by (simp add: calculateTimeRemaining_def Math_max_0_nonpos Math_floor_nonpos
          times_SECONDS_PER_SLOT_nonpos nonneg_number_def)
  next
    case False
    then have "nonneg_number (Number (end_slot - currentSlot))"
      by (simp add: Number_def round_to_double_nonneg)
    then show ?thesis
      by (simp add: calculateTimeRemaining_def Math_max_0_nonneg Math_floor_nonneg
          times_SECONDS_PER_SLOT_nonneg)
  qed
next
  show "end_slot \<le> currentSlot \<longrightarrow> calculateTimeRemaining currentSlot end_slot = Finite 0"
  proof
    assume "end_slot \<le> currentSlot"
    then have "nonpos_number (Number (end_slot - currentSlot))"
      by (simp add: Number_def round_to_double_nonpos)
    then show "calculateTimeRemaining currentSlot end_slot = Finite 0"
      by (simp add: calculateTimeRemaining_def Math_max_0_nonpos Math_floor_nonpos
          times_SECONDS_PER_SLOT_nonpos)
  qed
qed

theorem calculateTimeRemaining_clamped_witness:
  "nonneg_number (calculateTimeRemaining 250 100) \<and> (100::int) \<le> 250 \<and>
   calculateTimeRemaining 250 100 = Finite 0"
  using calculateTimeRemaining_clamped [of 250 100] by (simp add: nonneg_number_def)

end
